theory Spec2Isabelle
  imports Main "HOL-Library.Sublist"
begin

section \<open>reggc: registry garbage collection against running workloads\<close>

text \<open>
  A shallow embedding of \<^verbatim>\<open>gc.go\<close>. The registry client, the Kubernetes client and
  the remote-command executors are libraries outside the repository: their operations
  are the fields of an environment record, acting on a world of any type. Everything
  the program itself does (loops, parsing, error wrapping, the order of calls) is
  written out below, function by function, under the names of the source.
\<close>

subsection \<open>Data\<close>

text \<open>\<^verbatim>\<open>type stringset = map[string]struct{}\<close>: a map used as a set of keys.\<close>

type_synonym stringset = "string set"

text \<open>\<^verbatim>\<open>ref.Ref\<close> of regclient, with the four fields the program fills in.\<close>

record ref =
  Scheme :: string
  Registry :: string
  Repository :: string
  Tag :: string

text \<open>
  Modelled from the spec: the pod type of the Kubernetes API is not part of the
  repository. A workload exposes a list of containers, each with an image reference
  string (spec, section 6); the fields are the ones \<^verbatim>\<open>fetchPodImages\<close> reads
  (\<^verbatim>\<open>pod.Spec.Containers\<close>, \<^verbatim>\<open>ctr.Image\<close>), and the namespace the pod lives in.
\<close>

record container =
  Image :: string

record pod_spec =
  Containers :: "container list"

record pod =
  Namespace :: string
  Spec :: pod_spec

text \<open>
  Go errors. \<open>Ext\<close> is an error handed back by a library; \<open>Errorf\<close> and \<open>Wrapf\<close> are
  \<^verbatim>\<open>fmt.Errorf\<close> without and with a wrapped error (\<^verbatim>\<open>%w\<close>), holding the format string of
  the source and its string arguments.
\<close>

datatype 'e error =
    Ext 'e
  | Errorf string "string list"
  | Wrapf string "string list" "'e error"

text \<open>The two remote-command executors \<^verbatim>\<open>gcRegistry\<close> builds.\<close>

datatype executor = SPDY | WebSocket

text \<open>The exec request of \<^verbatim>\<open>gcRegistry\<close>: the target pod and \<^verbatim>\<open>corev1.PodExecOptions\<close>.\<close>

record exec_request =
  Resource :: string
  Name :: string
  ExecNamespace :: string
  SubResource :: string
  Command :: "string list"
  Stdout :: bool
  Stderr :: bool

text \<open>
  What the program does to the outside, in the order it does it: the calls of
  \<^verbatim>\<open>deleteImage\<close> and \<^verbatim>\<open>gcRegistry\<close>, the tag deletions sent to the registry, the streams
  opened on an executor, and the \<^verbatim>\<open>slog.Info\<close> lines.
\<close>

datatype event =
    DeleteImageCall string
  | TagDeleteCall ref
  | GcRegistryCall
  | StreamCall executor
  | LogInfo string "string list"

record 'w state =
  world :: 'w
  trace :: "event list"

definition emit :: "event list \<Rightarrow> 'w state \<Rightarrow> 'w state" where
  "emit evs s = s\<lparr>trace := trace s @ evs\<rparr>"

text \<open>
  The libraries. Listing and configuration read the world; deleting a tag and
  streaming a command may change it. \<open>Stream\<close> returns the error and the bytes written
  to the output buffer. \<open>rangeOrder\<close> is the order in which a \<^verbatim>\<open>range\<close> loop visits the
  keys of a map, which Go leaves unspecified.
\<close>

record ('w, 'e) env =
  InClusterConfig :: "'w \<Rightarrow> 'e option"
  NewForConfig :: "'w \<Rightarrow> 'e option"
  RepoList :: "string \<Rightarrow> 'w \<Rightarrow> 'e + string list"
  TagList :: "ref \<Rightarrow> 'w \<Rightarrow> 'e + string list"
  TagDelete :: "ref \<Rightarrow> 'w \<Rightarrow> 'e option \<times> 'w"
  PodsList :: "string \<Rightarrow> 'w \<Rightarrow> 'e + pod list"
  NewSPDYExecutor :: "exec_request \<Rightarrow> 'w \<Rightarrow> 'e option"
  NewWebSocketExecutor :: "exec_request \<Rightarrow> 'w \<Rightarrow> 'e option"
  Stream :: "executor \<Rightarrow> exec_request \<Rightarrow> 'w \<Rightarrow> ('e option \<times> string) \<times> 'w"
  IsUpgradeFailure :: "'e \<Rightarrow> bool"
  IsHTTPSProxyError :: "'e \<Rightarrow> bool"
  rangeOrder :: "stringset \<Rightarrow> string list"

text \<open>
  A \<^verbatim>\<open>range\<close> loop over a map visits every key of the map, each once.
\<close>

definition range_ok :: "('w, 'e) env \<Rightarrow> stringset \<Rightarrow> bool" where
  "range_ok env S \<longleftrightarrow> set (rangeOrder env S) = S \<and> distinct (rangeOrder env S)"

subsection \<open>\<^verbatim>\<open>strings.Cut\<close>\<close>

text \<open>
  \<^verbatim>\<open>strings.Cut(s, sep)\<close> slices \<open>s\<close> around the first instance of \<open>sep\<close> and returns the
  text before it, the text after it, and whether \<open>sep\<close> was found; when it is not
  found the result is \<open>(s, "", false)\<close>.
\<close>

fun cut_at :: "string \<Rightarrow> string \<Rightarrow> (string \<times> string) option" where
  "cut_at sep [] = (if sep = [] then Some ([], []) else None)"
| "cut_at sep (c # cs) =
     (if prefix sep (c # cs) then Some ([], drop (length sep) (c # cs))
      else (case cut_at sep cs of
              None \<Rightarrow> None
            | Some (before, after) \<Rightarrow> Some (c # before, after)))"

definition Cut :: "string \<Rightarrow> string \<Rightarrow> string \<times> string \<times> bool" where
  "Cut s sep =
     (case cut_at sep s of
        None \<Rightarrow> (s, [], False)
      | Some (before, after) \<Rightarrow> (before, after, True))"

subsection \<open>\<^verbatim>\<open>deleteImage\<close>\<close>

text \<open>
  Lines 122 to 129: the parse step. The host in front of the first \<open>/\<close> is dropped
  (\<^verbatim>\<open>_, repotag, ok := strings.Cut(img, "/")\<close>).
\<close>

definition parseImage :: "string \<Rightarrow> 'e error + (string \<times> string)" where
  "parseImage img =
     (case Cut img ''/'' of
        (_, repotag, ok) \<Rightarrow>
          if \<not> ok then Inl (Errorf ''could not parse registry from %q'' [img])
          else (case Cut repotag '':'' of
                  (repo, tag, ok) \<Rightarrow>
                    if \<not> ok
                    then Inl (Errorf ''could not parse repo and tag from %q'' [repotag])
                    else Inr (repo, tag)))"

definition deleteImage ::
  "('w, 'e) env \<Rightarrow> string \<Rightarrow> 'w state \<Rightarrow> 'e error option \<times> 'w state" where
  "deleteImage env img s =
     (let s0 = emit [DeleteImageCall img] s in
      case parseImage img of
        Inl err \<Rightarrow> (Some err, s0)
      | Inr (repo, tag) \<Rightarrow>
          (let r = \<lparr>Scheme = ''reg'', Registry = ''registry:5000'',
                    Repository = repo, Tag = tag\<rparr> in
           case TagDelete env r (world s0) of
             (Some err, w) \<Rightarrow>
               (Some (Wrapf ''could not delete %q: %w'' [img] (Ext err)),
                \<lparr>world = w, trace = trace s0 @ [TagDeleteCall r]\<rparr>)
           | (None, w) \<Rightarrow>
               (None,
                \<lparr>world = w,
                 trace = trace s0 @ [TagDeleteCall r,
                                     LogInfo ''deleted image'' [''image'', img]]\<rparr>)))"

subsection \<open>\<^verbatim>\<open>gcRegistry\<close>\<close>

definition gc_request :: exec_request where
  "gc_request =
     \<lparr>Resource = ''pods'', Name = ''registry-0'', ExecNamespace = ''default'',
      SubResource = ''exec'',
      Command = [''bin/registry'', ''garbage-collect'', ''--delete-untagged'',
                 ''/etc/docker/registry/config.yml''],
      Stdout = True, Stderr = True\<rparr>"

text \<open>
  One executor's \<^verbatim>\<open>StreamWithContext\<close> with both output streams on the buffer \<open>buf\<close>:
  what the command writes is appended to it.
\<close>

definition StreamWithContext ::
  "('w, 'e) env \<Rightarrow> executor \<Rightarrow> string \<Rightarrow> 'w state \<Rightarrow> 'e option \<times> string \<times> 'w state" where
  "StreamWithContext env ex buf s =
     (case Stream env ex gc_request (world s) of
        ((err, out), w) \<Rightarrow> (err, buf @ out, \<lparr>world = w, trace = trace s @ [StreamCall ex]\<rparr>))"

text \<open>
  Modelled from the spec: \<^verbatim>\<open>remotecommand.NewFallbackExecutor(primary, secondary,
  shouldFallback)\<close> belongs to the Kubernetes client library, which is not under the
  sources. By section 4.4 of the spec the primary executor is attempted first; on a
  failure that \<open>shouldFallback\<close> accepts the command is retried through the secondary
  executor; any other failure is surfaced as it is, and so is success.
\<close>

definition FallbackStream ::
  "('w, 'e) env \<Rightarrow> executor \<Rightarrow> executor \<Rightarrow> ('e \<Rightarrow> bool) \<Rightarrow> string \<Rightarrow> 'w state
     \<Rightarrow> 'e option \<times> string \<times> 'w state" where
  "FallbackStream env primary secondary shouldFallback buf s =
     (case StreamWithContext env primary buf s of
        (None, buf1, s1) \<Rightarrow> (None, buf1, s1)
      | (Some err, buf1, s1) \<Rightarrow>
          if shouldFallback err then StreamWithContext env secondary buf1 s1
          else (Some err, buf1, s1))"

definition gcRegistry :: "('w, 'e) env \<Rightarrow> 'w state \<Rightarrow> 'e error option \<times> 'w state" where
  "gcRegistry env s =
     (let s0 = emit [GcRegistryCall] s in
      case NewSPDYExecutor env gc_request (world s0) of
        Some err \<Rightarrow> (Some (Wrapf ''could not create spdy executor: %w'' [] (Ext err)), s0)
      | None \<Rightarrow>
     (case NewWebSocketExecutor env gc_request (world s0) of
        Some err \<Rightarrow>
          (Some (Wrapf ''failed to create websocket executor: %w'' [] (Ext err)), s0)
      | None \<Rightarrow>
     (case FallbackStream env WebSocket SPDY
             (\<lambda>err. IsUpgradeFailure env err \<or> IsHTTPSProxyError env err) [] s0 of
        (Some err, buf, s1) \<Rightarrow>
          if length buf > 0
          then (Some (Wrapf ''could not exec registry garbage-collect: %w\<newline>---\<newline>%s''
                        [buf] (Ext err)), s1)
          else (Some (Wrapf ''could not exec registry garbage-collect: %w'' [] (Ext err)), s1)
      | (None, buf, s1) \<Rightarrow> (None, emit [LogInfo ''gc completed'' []] s1))))"

subsection \<open>\<^verbatim>\<open>fetchRegistryImages\<close> and \<^verbatim>\<open>fetchPodImages\<close>\<close>

text \<open>The canonical string the inventory holds for a repository and a tag (line 100).\<close>

definition image_name :: "string \<Rightarrow> string \<Rightarrow> string" where
  "image_name repo tag = ''ctr.lesiw.dev/'' @ repo @ '':'' @ tag"

text \<open>
  The loop of lines 89 to 102 over the listed repositories, \<open>imgs\<close> being the map
  filled so far; a tag list that fails returns from the whole function.
\<close>

fun fetch_repos ::
  "('w, 'e) env \<Rightarrow> 'w \<Rightarrow> string list \<Rightarrow> stringset \<Rightarrow> 'e error + stringset" where
  "fetch_repos env w [] imgs = Inr imgs"
| "fetch_repos env w (repo # repos) imgs =
     (case TagList env \<lparr>Scheme = ''reg'', Registry = ''registry:5000'',
                        Repository = repo, Tag = []\<rparr> w of
        Inl err \<Rightarrow> Inl (Wrapf ''could not get tags for repository %q: %w'' [repo] (Ext err))
      | Inr tags \<Rightarrow>
          fetch_repos env w repos
            (fold (\<lambda>tag imgs. insert (image_name repo tag) imgs) tags imgs))"

definition fetchRegistryImages :: "('w, 'e) env \<Rightarrow> 'w \<Rightarrow> 'e error + stringset" where
  "fetchRegistryImages env w =
     (case RepoList env ''registry:5000'' w of
        Inl err \<Rightarrow> Inl (Wrapf ''could not get repository list: %w'' [] (Ext err))
      | Inr repos \<Rightarrow> fetch_repos env w repos {})"

text \<open>
  \<^verbatim>\<open>k8s.CoreV1().Pods("").List(ctx, metav1.ListOptions{})\<close>: the namespace argument is
  the empty string and the list options are empty. The error is returned unwrapped.
\<close>

definition fetchPodImages :: "('w, 'e) env \<Rightarrow> 'w \<Rightarrow> 'e error + stringset" where
  "fetchPodImages env w =
     (case PodsList env [] w of
        Inl err \<Rightarrow> Inl (Ext err)
      | Inr pods \<Rightarrow>
          Inr (fold (\<lambda>pod imgs.
                       fold (\<lambda>ctr imgs. insert (Image ctr) imgs) (Containers (Spec pod)) imgs)
                 pods {}))"

subsection \<open>\<^verbatim>\<open>run\<close>\<close>

text \<open>
  Lines 65 to 69: every key of \<open>regimgs\<close> that is a key of \<open>podimgs\<close> is deleted from
  \<open>regimgs\<close>. The loop deletes only the key it is visiting, so it visits every key the
  map had when the loop began.
\<close>

definition unreferenced :: "('w, 'e) env \<Rightarrow> stringset \<Rightarrow> stringset \<Rightarrow> stringset" where
  "unreferenced env regimgs podimgs =
     fold (\<lambda>img regimgs. if img \<in> podimgs then regimgs - {img} else regimgs)
       (rangeOrder env regimgs) regimgs"

text \<open>Lines 70 to 74: the loop over what is left of \<open>regimgs\<close>, in the order \<open>imgs\<close>.\<close>

fun delete_loop ::
  "('w, 'e) env \<Rightarrow> string list \<Rightarrow> 'w state \<Rightarrow> 'e error option \<times> 'w state" where
  "delete_loop env [] s = (None, s)"
| "delete_loop env (img # imgs) s =
     (case deleteImage env img s of
        (Some err, s1) \<Rightarrow> (Some (Wrapf ''could not delete image %q: %w'' [img] err), s1)
      | (None, s1) \<Rightarrow> delete_loop env imgs s1)"

text \<open>
  Lines 65 to 78: the part of \<open>run\<close> that follows the two fetches, as a function of
  the two inventories.
\<close>

definition reconcile ::
  "('w, 'e) env \<Rightarrow> stringset \<Rightarrow> stringset \<Rightarrow> 'w state \<Rightarrow> 'e error option \<times> 'w state" where
  "reconcile env regimgs podimgs s =
     (case delete_loop env (rangeOrder env (unreferenced env regimgs podimgs)) s of
        (Some err, s1) \<Rightarrow> (Some err, s1)
      | (None, s1) \<Rightarrow>
          (case gcRegistry env s1 of
             (Some err, s2) \<Rightarrow> (Some (Wrapf ''could not trigger registry gc: %w'' [] err), s2)
           | (None, s2) \<Rightarrow> (None, s2)))"

definition run :: "('w, 'e) env \<Rightarrow> 'w state \<Rightarrow> 'e error option \<times> 'w state" where
  "run env s =
     (case InClusterConfig env (world s) of
        Some err \<Rightarrow> (Some (Wrapf ''could not get cluster config: %w'' [] (Ext err)), s)
      | None \<Rightarrow>
     (case NewForConfig env (world s) of
        Some err \<Rightarrow> (Some (Wrapf ''could not make kubernetes client: %w'' [] (Ext err)), s)
      | None \<Rightarrow>
     (case fetchRegistryImages env (world s) of
        Inl err \<Rightarrow> (Some (Wrapf ''could not fetch registry images: %w'' [] err), s)
      | Inr regimgs \<Rightarrow>
     (case fetchPodImages env (world s) of
        Inl err \<Rightarrow> (Some (Wrapf ''could not fetch pod images: %w'' [] err), s)
      | Inr podimgs \<Rightarrow> reconcile env regimgs podimgs s))))"

text \<open>The events a run has added to the trace, and the images among them.\<close>

definition new_events :: "'w state \<Rightarrow> 'w state \<Rightarrow> event list" where
  "new_events s s' = drop (length (trace s)) (trace s')"

fun deleted_images :: "event list \<Rightarrow> string list" where
  "deleted_images [] = []"
| "deleted_images (DeleteImageCall img # evs) = img # deleted_images evs"
| "deleted_images (_ # evs) = deleted_images evs"

text \<open>The events of the garbage-collection trigger.\<close>

fun is_gc_event :: "event \<Rightarrow> bool" where
  "is_gc_event GcRegistryCall = True"
| "is_gc_event (StreamCall ex) = True"
| "is_gc_event _ = False"

fun stream_calls :: "event list \<Rightarrow> executor list" where
  "stream_calls [] = []"
| "stream_calls (StreamCall ex # evs) = ex # stream_calls evs"
| "stream_calls (_ # evs) = stream_calls evs"

fun tag_deletes :: "event list \<Rightarrow> ref list" where
  "tag_deletes [] = []"
| "tag_deletes (TagDeleteCall r # evs) = r # tag_deletes evs"
| "tag_deletes (_ # evs) = tag_deletes evs"

subsection \<open>A registry and a cluster to run against\<close>

text \<open>
  Modelled from the spec: the registry and the cluster are outside the repository.
  The registry state is a set of (repository, tag) pairs, kept as a list, from which a
  deletion removes an element (section 3 and section 7 of the spec: a deletion can
  fail, and then changes nothing); the registry answers on \<^verbatim>\<open>registry:5000\<close> only.
  The cluster lists its pods, all of them when the namespace is empty. Each listing
  can be down. Streaming the garbage-collection command gives the result the world
  holds for that executor and leaves the tags alone.
\<close>

datatype sim_error =
    NotFound | Unavailable | DeleteRefused | UpgradeFailure | HTTPSProxy | CommandFailed

record cluster =
  stored :: "(string \<times> string) list"
  refused :: "(string \<times> string) list"
  catalog_down :: bool
  tags_down :: "string list"
  running :: "pod list"
  pods_down :: bool
  ws_result :: "sim_error option \<times> string"
  spdy_result :: "sim_error option \<times> string"

definition sim_TagDelete :: "ref \<Rightarrow> cluster \<Rightarrow> sim_error option \<times> cluster" where
  "sim_TagDelete r w =
     (if Registry r \<noteq> ''registry:5000'' \<or> (Repository r, Tag r) \<notin> set (stored w)
      then (Some NotFound, w)
      else if (Repository r, Tag r) \<in> set (refused w) then (Some DeleteRefused, w)
      else (None, w\<lparr>stored := removeAll (Repository r, Tag r) (stored w)\<rparr>))"

definition sim :: "(stringset \<Rightarrow> string list) \<Rightarrow> (cluster, sim_error) env" where
  "sim ord =
     \<lparr>InClusterConfig = (\<lambda>w. None),
      NewForConfig = (\<lambda>w. None),
      RepoList = (\<lambda>host w.
        if host \<noteq> ''registry:5000'' then Inl NotFound
        else if catalog_down w then Inl Unavailable
        else Inr (remdups (map fst (stored w)))),
      TagList = (\<lambda>r w.
        if Registry r \<noteq> ''registry:5000'' then Inl NotFound
        else if Repository r \<in> set (tags_down w) then Inl Unavailable
        else Inr (map snd (filter (\<lambda>p. fst p = Repository r) (stored w)))),
      TagDelete = sim_TagDelete,
      PodsList = (\<lambda>ns w.
        if pods_down w then Inl Unavailable
        else Inr (if ns = [] then running w
                  else filter (\<lambda>p. Namespace p = ns) (running w))),
      NewSPDYExecutor = (\<lambda>req w. None),
      NewWebSocketExecutor = (\<lambda>req w. None),
      Stream = (\<lambda>ex req w. (case ex of WebSocket \<Rightarrow> ws_result w | SPDY \<Rightarrow> spdy_result w, w)),
      IsUpgradeFailure = (\<lambda>e. e = UpgradeFailure),
      IsHTTPSProxyError = (\<lambda>e. e = HTTPSProxy),
      rangeOrder = ord\<rparr>"

text \<open>A range order that follows a given list of keys.\<close>

definition listed_order :: "string list \<Rightarrow> stringset \<Rightarrow> string list" where
  "listed_order keys S = filter (\<lambda>k. k \<in> S) keys"

text \<open>
  A registry holding three images, the second of which it refuses to delete, and a
  cluster with no pods.
\<close>

definition demo_cluster :: cluster where
  "demo_cluster =
     \<lparr>stored = [(''a'', ''v1''), (''b'', ''v2''), (''c'', ''v3'')],
      refused = [(''b'', ''v2'')],
      catalog_down = False, tags_down = [],
      running = [], pods_down = False,
      ws_result = (None, []), spdy_result = (None, [])\<rparr>"

definition demo_env :: "(cluster, sim_error) env" where
  "demo_env =
     sim (listed_order [''ctr.lesiw.dev/a:v1'', ''ctr.lesiw.dev/b:v2'', ''ctr.lesiw.dev/c:v3''])"

text \<open>
  A registry with two repositories, and pods in two namespaces that run two of its
  three images and one image from elsewhere.
\<close>

definition shop_cluster :: cluster where
  "shop_cluster =
     \<lparr>stored = [(''web'', ''v1''), (''web'', ''v2''), (''db'', ''v1'')],
      refused = [],
      catalog_down = False, tags_down = [],
      running =
        [\<lparr>Namespace = ''default'',
          Spec = \<lparr>Containers = [\<lparr>Image = ''ctr.lesiw.dev/web:v2''\<rparr>,
                                \<lparr>Image = ''docker.io/envoy:1''\<rparr>]\<rparr>\<rparr>,
         \<lparr>Namespace = ''kube-system'',
          Spec = \<lparr>Containers = [\<lparr>Image = ''ctr.lesiw.dev/web:v2''\<rparr>,
                                \<lparr>Image = ''ctr.lesiw.dev/db:v1''\<rparr>]\<rparr>\<rparr>],
      pods_down = False,
      ws_result = (None, []), spdy_result = (None, [])\<rparr>"

definition shop_env :: "(cluster, sim_error) env" where
  "shop_env =
     sim (listed_order [''ctr.lesiw.dev/web:v1'', ''ctr.lesiw.dev/web:v2'',
                        ''ctr.lesiw.dev/db:v1''])"

section \<open>Properties\<close>

subsection \<open>Cutting at a single character\<close>

lemma cut_at_single_notin: "c \<notin> set s \<Longrightarrow> cut_at [c] s = None"
  by (induction s) auto

lemma cut_at_single_first: "c \<notin> set h \<Longrightarrow> cut_at [c] (h @ c # t) = Some (h, t)"
  by (induction h) auto

lemma cut_at_single_Some:
  "cut_at [c] s = Some (b, a) \<Longrightarrow> s = b @ c # a \<and> c \<notin> set b"
  by (induction s arbitrary: b) (auto split: option.splits if_splits)

lemma cut_at_single_in: "c \<in> set s \<Longrightarrow> \<exists>b a. cut_at [c] s = Some (b, a)"
  by (induction s) (auto split: option.splits)

lemma Cut_single_notin: "c \<notin> set s \<Longrightarrow> Cut s [c] = (s, [], False)"
  by (simp add: Cut_def cut_at_single_notin)

lemma Cut_single_first: "c \<notin> set h \<Longrightarrow> Cut (h @ c # t) [c] = (h, t, True)"
  by (simp add: Cut_def cut_at_single_first)

lemma Cut_single_found:
  "Cut s [c] = (b, a, True) \<Longrightarrow> s = b @ c # a \<and> c \<notin> set b"
  by (auto simp: Cut_def split: option.splits dest: cut_at_single_Some)

lemma parseImage_no_slash:
  "CHR ''/'' \<notin> set img \<Longrightarrow> parseImage img = Inl (Errorf ''could not parse registry from %q'' [img])"
  by (simp add: parseImage_def Cut_single_notin)

lemma parseImage_no_colon:
  "CHR ''/'' \<notin> set host \<Longrightarrow> CHR '':'' \<notin> set rest \<Longrightarrow>
   parseImage (host @ ''/'' @ rest) = Inl (Errorf ''could not parse repo and tag from %q'' [rest])"
  by (simp add: parseImage_def Cut_single_notin Cut_single_first)

lemma parseImage_ok:
  "CHR ''/'' \<notin> set host \<Longrightarrow> CHR '':'' \<notin> set repo \<Longrightarrow>
   parseImage (host @ ''/'' @ repo @ '':'' @ tag) = Inr (repo, tag)"
  by (simp add: parseImage_def Cut_single_first)

lemma parseImage_Inr:
  assumes "parseImage img = Inr (repo, tag)"
  shows "\<exists>host. img = host @ ''/'' @ repo @ '':'' @ tag \<and> CHR ''/'' \<notin> set host \<and> CHR '':'' \<notin> set repo"
proof -
  obtain h repotag ok where c1: "Cut img ''/'' = (h, repotag, ok)"
    by (cases "Cut img ''/''") auto
  with assms have ok: "ok" by (auto simp: parseImage_def split: if_splits)
  obtain r t ok2 where c2: "Cut repotag '':'' = (r, t, ok2)"
    by (cases "Cut repotag '':''") auto
  with assms c1 ok have ok2: "ok2" and rt: "r = repo" "t = tag"
    by (auto simp: parseImage_def split: if_splits)
  from c1 ok have "img = h @ CHR ''/'' # repotag \<and> CHR ''/'' \<notin> set h"
    by (auto dest: Cut_single_found)
  moreover from c2 ok2 rt have "repotag = repo @ CHR '':'' # tag \<and> CHR '':'' \<notin> set repo"
    by (auto dest: Cut_single_found)
  ultimately show ?thesis by auto
qed

lemma parseImage_Inr_iff:
  "parseImage img = Inr (repo, tag) \<longleftrightarrow>
   (\<exists>host. img = host @ ''/'' @ repo @ '':'' @ tag \<and> CHR ''/'' \<notin> set host \<and> CHR '':'' \<notin> set repo)"
  using parseImage_Inr parseImage_ok by metis

lemma parseImage_image_name:
  "\<exists>repo' tag'. parseImage (image_name repo tag) = Inr (repo', tag')"
proof -
  have s: "Cut (image_name repo tag) ''/'' = (''ctr.lesiw.dev'', repo @ '':'' @ tag, True)"
    using Cut_single_first [of "CHR ''/''" "''ctr.lesiw.dev''" "repo @ '':'' @ tag"]
    by (simp add: image_name_def)
  have "CHR '':'' \<in> set (repo @ '':'' @ tag)" by simp
  then obtain b a where "cut_at '':'' (repo @ '':'' @ tag) = Some (b, a)"
    using cut_at_single_in by blast
  then have "Cut (repo @ '':'' @ tag) '':'' = (b, a, True)"
    by (simp add: Cut_def)
  with s show ?thesis by (simp add: parseImage_def)
qed


lemma trace_emit [simp]: "trace (emit evs s) = trace s @ evs"
  by (simp add: emit_def)

lemma world_emit [simp]: "world (emit evs s) = world s"
  by (simp add: emit_def)

lemma new_events_append [simp]: "trace s' = trace s @ evs \<Longrightarrow> new_events s s' = evs"
  by (simp add: new_events_def)

subsection \<open>What \<^verbatim>\<open>deleteImage\<close> does\<close>

lemma deleteImage_parse_error:
  "parseImage img = Inl err \<Longrightarrow>
   deleteImage env img s = (Some err, emit [DeleteImageCall img] s)"
  by (simp add: deleteImage_def)

lemma parseImage_Inr_any:
  "parseImage img = (Inr p :: 'a error + string \<times> string) \<Longrightarrow>
   parseImage img = (Inr p :: 'b error + string \<times> string)"
  by (auto simp: parseImage_def split: prod.splits if_splits)

lemma deleteImage_parsed:
  fixes env :: "('w, 'e) env"
  shows "parseImage img = (Inr (repo, tag) :: 'e error + string \<times> string) \<Longrightarrow>
   deleteImage env img s =
     (let r = \<lparr>Scheme = ''reg'', Registry = ''registry:5000'', Repository = repo, Tag = tag\<rparr> in
      case TagDelete env r (world s) of
        (Some err, w) \<Rightarrow>
          (Some (Wrapf ''could not delete %q: %w'' [img] (Ext err)),
           \<lparr>world = w, trace = trace s @ [DeleteImageCall img, TagDeleteCall r]\<rparr>)
      | (None, w) \<Rightarrow>
          (None,
           \<lparr>world = w,
            trace = trace s @ [DeleteImageCall img, TagDeleteCall r,
                               LogInfo ''deleted image'' [''image'', img]]\<rparr>))"
  by (simp add: deleteImage_def Let_def split: prod.splits option.splits)

subsection \<open>C5: malformed image strings are rejected before any deletion\<close>

text \<open>
  Claim C5. For every input string, \<^verbatim>\<open>deleteImage\<close> rejects a malformed image string
  with a parse error and performs no deletion: a string with no \<open>/\<close>, or whose
  remainder after the first \<open>/\<close> has no \<open>:\<close>, gives the error, and the state that
  comes back records the call and nothing else (the world is untouched, no tag
  deletion was sent). Parsing splits on the first \<open>/\<close> and then on the first \<open>:\<close> of
  the remainder: it yields repository and tag exactly for the strings
  \<open>host/repository:tag\<close> whose host has no \<open>/\<close> and whose repository has no \<open>:\<close>.
\<close>
theorem deleteImage_rejects_malformed:
  "(CHR ''/'' \<notin> set img \<longrightarrow>
      deleteImage env img s =
        (Some (Errorf ''could not parse registry from %q'' [img]),
         emit [DeleteImageCall img] s))
   \<and> (CHR ''/'' \<notin> set host \<and> CHR '':'' \<notin> set rest \<longrightarrow>
      deleteImage env (host @ ''/'' @ rest) s =
        (Some (Errorf ''could not parse repo and tag from %q'' [rest]),
         emit [DeleteImageCall (host @ ''/'' @ rest)] s))
   \<and> ((parseImage img = (Inr (repo, tag) :: 'e error + string \<times> string)) \<longleftrightarrow>
      (\<exists>host. img = host @ ''/'' @ repo @ '':'' @ tag
         \<and> CHR ''/'' \<notin> set host \<and> CHR '':'' \<notin> set repo))"
  for env :: "('w, 'e) env"
proof (intro conjI impI)
  assume "CHR ''/'' \<notin> set img"
  then have "parseImage img = (Inl (Errorf ''could not parse registry from %q'' [img]) :: 'e error + _)"
    by (rule parseImage_no_slash)
  then show "deleteImage env img s =
        (Some (Errorf ''could not parse registry from %q'' [img]), emit [DeleteImageCall img] s)"
    by (rule deleteImage_parse_error)
next
  assume "CHR ''/'' \<notin> set host \<and> CHR '':'' \<notin> set rest"
  then have "parseImage (host @ ''/'' @ rest) =
      (Inl (Errorf ''could not parse repo and tag from %q'' [rest]) :: 'e error + _)"
    using parseImage_no_colon [of host rest] by simp
  then show "deleteImage env (host @ ''/'' @ rest) s =
        (Some (Errorf ''could not parse repo and tag from %q'' [rest]),
         emit [DeleteImageCall (host @ ''/'' @ rest)] s)"
    by (rule deleteImage_parse_error)
next
  show "(parseImage img = (Inr (repo, tag) :: 'e error + string \<times> string)) \<longleftrightarrow>
      (\<exists>host. img = host @ ''/'' @ repo @ '':'' @ tag
         \<and> CHR ''/'' \<notin> set host \<and> CHR '':'' \<notin> set repo)"
    by (rule parseImage_Inr_iff)
qed

theorem deleteImage_rejects_malformed_witness:
  "deleteImage demo_env ''registry'' \<lparr>world = demo_cluster, trace = []\<rparr> =
     (Some (Errorf ''could not parse registry from %q'' [''registry'']),
      \<lparr>world = demo_cluster, trace = [DeleteImageCall ''registry'']\<rparr>)
   \<and> deleteImage demo_env ''a:v1/b'' \<lparr>world = demo_cluster, trace = []\<rparr> =
     (Some (Errorf ''could not parse repo and tag from %q'' [''b'']),
      \<lparr>world = demo_cluster, trace = [DeleteImageCall ''a:v1/b'']\<rparr>)
   \<and> parseImage ''ctr.lesiw.dev/team/app:v1:x'' =
       (Inr (''team/app'', ''v1:x'') :: sim_error error + string \<times> string)"
proof -
  have ex: "\<exists>host. ''ctr.lesiw.dev/team/app:v1:x'' = host @ ''/'' @ ''team/app'' @ '':'' @ ''v1:x''
              \<and> CHR ''/'' \<notin> set host \<and> CHR '':'' \<notin> set ''team/app''"
    by (rule exI [of _ "''ctr.lesiw.dev''"]) simp
  show ?thesis
    using ex
      deleteImage_rejects_malformed
        [of "''registry''" demo_env "\<lparr>world = demo_cluster, trace = []\<rparr>" "''a:v1''" "''b''"
            "''team/app''" "''v1:x''"]
      deleteImage_rejects_malformed
        [of "''ctr.lesiw.dev/team/app:v1:x''" demo_env "\<lparr>world = demo_cluster, trace = []\<rparr>"
            "''a:v1''" "''b''" "''team/app''" "''v1:x''"]
    by (simp add: emit_def)
qed

lemma parseImage_host_irrelevant:
  assumes "CHR ''/'' \<notin> set host1" and "CHR ''/'' \<notin> set host2"
  shows "parseImage (host1 @ ''/'' @ rest) = parseImage (host2 @ ''/'' @ rest)"
  using assms Cut_single_first [of "CHR ''/''" host1 rest] Cut_single_first [of "CHR ''/''" host2 rest]
  by (simp add: parseImage_def)

lemma deleteImage_requests:
  fixes env :: "('w, 'e) env"
  shows "tag_deletes (new_events s (snd (deleteImage env img s))) =
     (case (parseImage img :: 'e error + string \<times> string) of
        Inl err \<Rightarrow> []
      | Inr (repo, tag) \<Rightarrow>
          [\<lparr>Scheme = ''reg'', Registry = ''registry:5000'', Repository = repo, Tag = tag\<rparr>])"
  by (simp add: deleteImage_def Let_def new_events_def split: sum.splits prod.splits option.splits)

lemma deleteImage_world:
  fixes env :: "('w, 'e) env"
  shows "world (snd (deleteImage env img s)) =
     (case (parseImage img :: 'e error + string \<times> string) of
        Inl err \<Rightarrow> world s
      | Inr (repo, tag) \<Rightarrow>
          snd (TagDelete env
                 \<lparr>Scheme = ''reg'', Registry = ''registry:5000'', Repository = repo, Tag = tag\<rparr>
                 (world s)))"
  by (simp add: deleteImage_def Let_def split: sum.splits prod.splits option.splits)

subsection \<open>C9: the host of the image string plays no part in the deletion\<close>

text \<open>
  Claim C9. For every well-formed input \<open>host/repository:tag\<close>, \<^verbatim>\<open>deleteImage\<close> throws
  the parsed host away and sends the delete to the fixed endpoint \<^verbatim>\<open>registry:5000\<close>
  with the parsed repository and tag only. Two inputs that differ only in the host in
  front of the first \<open>/\<close> send the same requests and leave the same world; and for a
  repository without \<open>:\<close> the one request sent is the tag deletion for that
  repository and tag on \<^verbatim>\<open>registry:5000\<close>.
\<close>
theorem deleteImage_ignores_host:
  fixes env :: "('w, 'e) env"
  assumes "CHR ''/'' \<notin> set host1" and "CHR ''/'' \<notin> set host2"
  shows "tag_deletes (new_events s (snd (deleteImage env (host1 @ ''/'' @ rest) s))) =
         tag_deletes (new_events s (snd (deleteImage env (host2 @ ''/'' @ rest) s)))
       \<and> world (snd (deleteImage env (host1 @ ''/'' @ rest) s)) =
         world (snd (deleteImage env (host2 @ ''/'' @ rest) s))
       \<and> (CHR '':'' \<notin> set repo \<longrightarrow>
           tag_deletes (new_events s (snd (deleteImage env (host1 @ ''/'' @ repo @ '':'' @ tag) s))) =
             [\<lparr>Scheme = ''reg'', Registry = ''registry:5000'', Repository = repo, Tag = tag\<rparr>]
           \<and> world (snd (deleteImage env (host1 @ ''/'' @ repo @ '':'' @ tag) s)) =
             snd (TagDelete env
                    \<lparr>Scheme = ''reg'', Registry = ''registry:5000'', Repository = repo, Tag = tag\<rparr>
                    (world s)))"
proof -
  have p: "(parseImage (host1 @ ''/'' @ rest) :: 'e error + string \<times> string) =
           parseImage (host2 @ ''/'' @ rest)"
    using assms by (rule parseImage_host_irrelevant)
  have q: "CHR '':'' \<notin> set repo \<Longrightarrow>
           (parseImage (host1 @ ''/'' @ repo @ '':'' @ tag) :: 'e error + string \<times> string) =
           Inr (repo, tag)"
    using assms(1) by (rule parseImage_ok)
  show ?thesis
    unfolding deleteImage_requests deleteImage_world
    using p q by simp
qed

theorem deleteImage_ignores_host_witness:
  "tag_deletes (new_events \<lparr>world = demo_cluster, trace = []\<rparr>
      (snd (deleteImage demo_env ''ctr.lesiw.dev/a:v1'' \<lparr>world = demo_cluster, trace = []\<rparr>))) =
     [\<lparr>Scheme = ''reg'', Registry = ''registry:5000'', Repository = ''a'', Tag = ''v1''\<rparr>]
   \<and> tag_deletes (new_events \<lparr>world = demo_cluster, trace = []\<rparr>
      (snd (deleteImage demo_env ''docker.io/a:v1'' \<lparr>world = demo_cluster, trace = []\<rparr>))) =
     [\<lparr>Scheme = ''reg'', Registry = ''registry:5000'', Repository = ''a'', Tag = ''v1''\<rparr>]
   \<and> stored (world (snd (deleteImage demo_env ''docker.io/a:v1''
                            \<lparr>world = demo_cluster, trace = []\<rparr>))) =
     [(''b'', ''v2''), (''c'', ''v3'')]"
  using deleteImage_ignores_host
          [of "''ctr.lesiw.dev''" "''docker.io''" "\<lparr>world = demo_cluster, trace = []\<rparr>"
              demo_env "''a:v1''" "''a''" "''v1''"]
        deleteImage_ignores_host
          [of "''docker.io''" "''ctr.lesiw.dev''" "\<lparr>world = demo_cluster, trace = []\<rparr>"
              demo_env "''a:v1''" "''a''" "''v1''"]
  by (simp add: demo_env_def sim_def sim_TagDelete_def demo_cluster_def)

subsection \<open>What the fetchers return\<close>

lemma fold_insert_image:
  "fold (\<lambda>tag imgs. insert (f tag) imgs) tags imgs = imgs \<union> f ` set tags"
  by (induction tags arbitrary: imgs) auto

lemma fetch_repos_ok:
  "\<forall>repo \<in> set repos.
     TagList env \<lparr>Scheme = ''reg'', Registry = ''registry:5000'', Repository = repo, Tag = []\<rparr> w
       = Inr (tags repo) \<Longrightarrow>
   fetch_repos env w repos imgs =
     Inr (imgs \<union> {image_name repo tag | repo tag. repo \<in> set repos \<and> tag \<in> set (tags repo)})"
proof (induction repos arbitrary: imgs)
  case Nil
  then show ?case by simp
next
  case (Cons repo repos)
  show ?case
    using Cons.prems by (simp add: Cons.IH fold_insert_image) (auto simp: image_iff)
qed

lemma fetch_repos_fail:
  "repo \<in> set repos \<Longrightarrow>
   TagList env \<lparr>Scheme = ''reg'', Registry = ''registry:5000'', Repository = repo, Tag = []\<rparr> w
     = Inl e \<Longrightarrow>
   \<exists>repo' e'. fetch_repos env w repos imgs =
       Inl (Wrapf ''could not get tags for repository %q: %w'' [repo'] (Ext e'))
     \<and> repo' \<in> set repos
     \<and> TagList env \<lparr>Scheme = ''reg'', Registry = ''registry:5000'', Repository = repo', Tag = []\<rparr> w
         = Inl e'"
proof (induction repos arbitrary: imgs)
  case Nil
  then show ?case by simp
next
  case (Cons r repos)
  show ?case
  proof (cases "TagList env \<lparr>Scheme = ''reg'', Registry = ''registry:5000'', Repository = r, Tag = []\<rparr> w")
    case (Inl e0)
    then show ?thesis by auto
  next
    case (Inr ts)
    with Cons.prems have "repo \<in> set repos" by auto
    from Cons.IH [OF this Cons.prems(2)]
    obtain repo' e' where
      "fetch_repos env w repos (fold (\<lambda>tag imgs. insert (image_name r tag) imgs) ts imgs) =
         Inl (Wrapf ''could not get tags for repository %q: %w'' [repo'] (Ext e'))"
      "repo' \<in> set repos"
      "TagList env \<lparr>Scheme = ''reg'', Registry = ''registry:5000'', Repository = repo', Tag = []\<rparr> w
         = Inl e'"
      by blast
    with Inr show ?thesis by auto
  qed
qed

lemma fetch_repos_members:
  "fetch_repos env w repos imgs = Inr res \<Longrightarrow> img \<in> res \<Longrightarrow>
   img \<in> imgs \<or> (\<exists>repo tag. img = image_name repo tag)"
proof (induction repos arbitrary: imgs)
  case Nil
  then show ?case by simp
next
  case (Cons r repos)
  then show ?case
    by (fastforce simp: fold_insert_image split: sum.splits)
qed


lemma cross_product_UN:
  "{f repo tag | repo tag. repo \<in> set repos \<and> tag \<in> set (tags repo)} =
   (\<Union>repo \<in> set repos. f repo ` set (tags repo))"
  by auto

subsection \<open>C6: the registry inventory is the cross product, or nothing\<close>

text \<open>
  Claim C6. \<^verbatim>\<open>fetchRegistryImages\<close> returns exactly the cross product of the listed
  repositories and their listed tags, each pair composed into the string
  \<open>ctr.lesiw.dev/repository:tag\<close> under the registry's public host. When listing the
  repositories fails, or listing the tags of any one repository fails, the whole
  fetch is an error and carries no inventory.
\<close>
theorem fetchRegistryImages_cross_product:
  "(RepoList env ''registry:5000'' w = Inl e \<longrightarrow>
      fetchRegistryImages env w = Inl (Wrapf ''could not get repository list: %w'' [] (Ext e)))
   \<and> (RepoList env ''registry:5000'' w = Inr repos
        \<and> (\<forall>repo \<in> set repos.
              TagList env \<lparr>Scheme = ''reg'', Registry = ''registry:5000'',
                            Repository = repo, Tag = []\<rparr> w = Inr (tags repo)) \<longrightarrow>
      fetchRegistryImages env w =
        Inr {''ctr.lesiw.dev/'' @ repo @ '':'' @ tag | repo tag.
               repo \<in> set repos \<and> tag \<in> set (tags repo)})
   \<and> (RepoList env ''registry:5000'' w = Inr repos \<and> repo \<in> set repos
        \<and> TagList env \<lparr>Scheme = ''reg'', Registry = ''registry:5000'',
                         Repository = repo, Tag = []\<rparr> w = Inl e \<longrightarrow>
      (\<exists>repo' e'.
         fetchRegistryImages env w =
           Inl (Wrapf ''could not get tags for repository %q: %w'' [repo'] (Ext e'))
         \<and> repo' \<in> set repos
         \<and> TagList env \<lparr>Scheme = ''reg'', Registry = ''registry:5000'',
                          Repository = repo', Tag = []\<rparr> w = Inl e'))"
proof (intro conjI impI)
  assume "RepoList env ''registry:5000'' w = Inl e"
  then show "fetchRegistryImages env w =
      Inl (Wrapf ''could not get repository list: %w'' [] (Ext e))"
    by (simp add: fetchRegistryImages_def)
next
  assume a: "RepoList env ''registry:5000'' w = Inr repos
        \<and> (\<forall>repo \<in> set repos.
              TagList env \<lparr>Scheme = ''reg'', Registry = ''registry:5000'',
                            Repository = repo, Tag = []\<rparr> w = Inr (tags repo))"
  then have "fetch_repos env w repos {} =
      Inr ({} \<union> {image_name repo tag | repo tag. repo \<in> set repos \<and> tag \<in> set (tags repo)})"
    by (intro fetch_repos_ok) simp
  with a show "fetchRegistryImages env w =
        Inr {''ctr.lesiw.dev/'' @ repo @ '':'' @ tag | repo tag.
               repo \<in> set repos \<and> tag \<in> set (tags repo)}"
    by (simp add: fetchRegistryImages_def image_name_def)
next
  assume a: "RepoList env ''registry:5000'' w = Inr repos \<and> repo \<in> set repos
        \<and> TagList env \<lparr>Scheme = ''reg'', Registry = ''registry:5000'',
                         Repository = repo, Tag = []\<rparr> w = Inl e"
  then have "\<exists>repo' e'. fetch_repos env w repos {} =
       Inl (Wrapf ''could not get tags for repository %q: %w'' [repo'] (Ext e'))
     \<and> repo' \<in> set repos
     \<and> TagList env \<lparr>Scheme = ''reg'', Registry = ''registry:5000'', Repository = repo', Tag = []\<rparr> w
         = Inl e'"
    by (intro fetch_repos_fail) auto
  with a show "\<exists>repo' e'.
         fetchRegistryImages env w =
           Inl (Wrapf ''could not get tags for repository %q: %w'' [repo'] (Ext e'))
         \<and> repo' \<in> set repos
         \<and> TagList env \<lparr>Scheme = ''reg'', Registry = ''registry:5000'',
                          Repository = repo', Tag = []\<rparr> w = Inl e'"
    by (simp add: fetchRegistryImages_def)
qed

theorem fetchRegistryImages_cross_product_witness:
  "RepoList shop_env ''registry:5000'' (shop_cluster\<lparr>catalog_down := True\<rparr>) = Inl Unavailable
   \<and> fetchRegistryImages shop_env (shop_cluster\<lparr>catalog_down := True\<rparr>) =
       Inl (Wrapf ''could not get repository list: %w'' [] (Ext Unavailable))
   \<and> RepoList shop_env ''registry:5000'' shop_cluster = Inr [''web'', ''db'']
   \<and> fetchRegistryImages shop_env shop_cluster =
       Inr {''ctr.lesiw.dev/web:v1'', ''ctr.lesiw.dev/web:v2'', ''ctr.lesiw.dev/db:v1''}
   \<and> TagList shop_env \<lparr>Scheme = ''reg'', Registry = ''registry:5000'',
                         Repository = ''db'', Tag = []\<rparr>
        (shop_cluster\<lparr>tags_down := [''db'']\<rparr>) = Inl Unavailable
   \<and> (\<exists>repo' e'. fetchRegistryImages shop_env (shop_cluster\<lparr>tags_down := [''db'']\<rparr>) =
         Inl (Wrapf ''could not get tags for repository %q: %w'' [repo'] (Ext e')))"
proof -
  let ?tags = "\<lambda>repo. if repo = ''web'' then [''v1'', ''v2''] else [''v1'']"
  have a: "RepoList shop_env ''registry:5000'' (shop_cluster\<lparr>catalog_down := True\<rparr>) = Inl Unavailable"
    by (simp add: shop_env_def sim_def)
  have b: "RepoList shop_env ''registry:5000'' shop_cluster = Inr [''web'', ''db'']"
    by (simp add: shop_env_def sim_def shop_cluster_def)
  have b': "RepoList shop_env ''registry:5000'' (shop_cluster\<lparr>tags_down := [''db'']\<rparr>) = Inr [''web'', ''db'']"
    by (simp add: shop_env_def sim_def shop_cluster_def)
  have c: "\<forall>repo \<in> set [''web'', ''db''].
             TagList shop_env \<lparr>Scheme = ''reg'', Registry = ''registry:5000'',
                                Repository = repo, Tag = []\<rparr> shop_cluster = Inr (?tags repo)"
    by (simp add: shop_env_def sim_def shop_cluster_def)
  have d: "TagList shop_env \<lparr>Scheme = ''reg'', Registry = ''registry:5000'',
                         Repository = ''db'', Tag = []\<rparr>
        (shop_cluster\<lparr>tags_down := [''db'']\<rparr>) = Inl Unavailable"
    by (simp add: shop_env_def sim_def shop_cluster_def)
  have e: "{''ctr.lesiw.dev/'' @ repo @ '':'' @ tag | repo tag.
               repo \<in> set [''web'', ''db''] \<and> tag \<in> set (?tags repo)} =
           {''ctr.lesiw.dev/web:v1'', ''ctr.lesiw.dev/web:v2'', ''ctr.lesiw.dev/db:v1''}"
    unfolding cross_product_UN [of "\<lambda>repo tag. ''ctr.lesiw.dev/'' @ repo @ '':'' @ tag"]
    by auto
  have 1: "fetchRegistryImages shop_env (shop_cluster\<lparr>catalog_down := True\<rparr>) =
       Inl (Wrapf ''could not get repository list: %w'' [] (Ext Unavailable))"
    using a fetchRegistryImages_cross_product
        [of shop_env "shop_cluster\<lparr>catalog_down := True\<rparr>" Unavailable "[]" ?tags "[]"]
    by simp
  have 2: "fetchRegistryImages shop_env shop_cluster =
       Inr {''ctr.lesiw.dev/web:v1'', ''ctr.lesiw.dev/web:v2'', ''ctr.lesiw.dev/db:v1''}"
    using b c e fetchRegistryImages_cross_product
        [of shop_env shop_cluster Unavailable "[''web'', ''db'']" ?tags "''db''"]
    by simp
  have 3: "\<exists>repo' e'. fetchRegistryImages shop_env (shop_cluster\<lparr>tags_down := [''db'']\<rparr>) =
         Inl (Wrapf ''could not get tags for repository %q: %w'' [repo'] (Ext e'))"
    using b' d fetchRegistryImages_cross_product
        [of shop_env "shop_cluster\<lparr>tags_down := [''db'']\<rparr>" Unavailable "[''web'', ''db'']" ?tags "''db''"]
    by auto
  show ?thesis using a b d 1 2 3 by simp
qed

lemma fetchRegistryImages_members:
  "fetchRegistryImages env w = Inr imgs \<Longrightarrow> img \<in> imgs \<Longrightarrow>
   \<exists>repo tag. img = image_name repo tag"
  by (auto simp: fetchRegistryImages_def split: sum.splits dest: fetch_repos_members)

subsection \<open>C10: the images the fetcher produces never hit a parse error\<close>

text \<open>
  Claim C10. Every image string the registry fetcher produces has the public host,
  then \<open>/\<close>, the repository, \<open>:\<close> and the tag; on such a string the parse step of
  \<^verbatim>\<open>deleteImage\<close> finds both separators, so neither of its two parse errors can come
  back, whatever the repository and the tag are.
\<close>
theorem fetched_images_always_parse:
  fixes env :: "('w, 'e) env"
  shows "(\<exists>repo' tag'. parseImage (''ctr.lesiw.dev/'' @ repo @ '':'' @ tag) =
             (Inr (repo', tag') :: 'e error + string \<times> string))
       \<and> (fetchRegistryImages env w = Inr imgs \<and> img \<in> imgs \<longrightarrow>
            (\<exists>repo' tag'. parseImage img = (Inr (repo', tag') :: 'e error + string \<times> string))
            \<and> fst (deleteImage env img s) \<noteq>
                 Some (Errorf ''could not parse registry from %q'' [img])
            \<and> (\<forall>repotag. fst (deleteImage env img s) \<noteq>
                 Some (Errorf ''could not parse repo and tag from %q'' [repotag])))"
proof (intro conjI impI)
  show "\<exists>repo' tag'. parseImage (''ctr.lesiw.dev/'' @ repo @ '':'' @ tag) =
             (Inr (repo', tag') :: 'e error + string \<times> string)"
    using parseImage_image_name [of repo tag] by (simp add: image_name_def)
next
  assume a: "fetchRegistryImages env w = Inr imgs \<and> img \<in> imgs"
  then have "\<exists>repo tag. img = image_name repo tag"
    using fetchRegistryImages_members [of env w imgs img] by simp
  then obtain repo tag where "img = image_name repo tag"
    by auto
  moreover have "\<exists>repo' tag'. parseImage (image_name repo tag) =
      (Inr (repo', tag') :: 'e error + string \<times> string)"
    by (rule parseImage_image_name)
  ultimately obtain repo' tag' where
    p: "parseImage img = (Inr (repo', tag') :: 'e error + string \<times> string)"
    by auto
  then show "\<exists>repo' tag'. parseImage img = (Inr (repo', tag') :: 'e error + string \<times> string)"
    by blast
  show "fst (deleteImage env img s) \<noteq> Some (Errorf ''could not parse registry from %q'' [img])"
    by (simp add: deleteImage_parsed [OF p] Let_def split: prod.splits option.splits)
  show "\<forall>repotag. fst (deleteImage env img s) \<noteq>
                 Some (Errorf ''could not parse repo and tag from %q'' [repotag])"
    by (simp add: deleteImage_parsed [OF p] Let_def split: prod.splits option.splits)
qed

theorem fetched_images_always_parse_witness:
  "fetchRegistryImages shop_env shop_cluster =
       Inr {''ctr.lesiw.dev/web:v1'', ''ctr.lesiw.dev/web:v2'', ''ctr.lesiw.dev/db:v1''}
   \<and> (\<exists>repo' tag'. parseImage ''ctr.lesiw.dev/web:v1'' =
         (Inr (repo', tag') :: sim_error error + string \<times> string))
   \<and> fst (deleteImage shop_env ''ctr.lesiw.dev/web:v1'' \<lparr>world = shop_cluster, trace = []\<rparr>) \<noteq>
        Some (Errorf ''could not parse registry from %q'' [''ctr.lesiw.dev/web:v1''])"
proof -
  have f: "fetchRegistryImages shop_env shop_cluster =
       Inr {''ctr.lesiw.dev/web:v1'', ''ctr.lesiw.dev/web:v2'', ''ctr.lesiw.dev/db:v1''}"
    by (simp add: fetchRegistryImages_def shop_env_def sim_def shop_cluster_def image_name_def
          insert_commute)
  show ?thesis
    using f fetched_images_always_parse
        [of "''web''" "''v1''" shop_env shop_cluster
            "{''ctr.lesiw.dev/web:v1'', ''ctr.lesiw.dev/web:v2'', ''ctr.lesiw.dev/db:v1''}"
            "''ctr.lesiw.dev/web:v1''" "\<lparr>world = shop_cluster, trace = []\<rparr>"]
    by simp
qed



subsection \<open>C7: the workload inventory holds the image of every container\<close>




subsection \<open>The trace of a cycle\<close>

lemma deleted_images_append [simp]:
  "deleted_images (xs @ ys) = deleted_images xs @ deleted_images ys"
  by (induction xs rule: deleted_images.induct) auto

lemma tag_deletes_append [simp]:
  "tag_deletes (xs @ ys) = tag_deletes xs @ tag_deletes ys"
  by (induction xs rule: tag_deletes.induct) auto

lemma stream_calls_append [simp]:
  "stream_calls (xs @ ys) = stream_calls xs @ stream_calls ys"
  by (induction xs rule: stream_calls.induct) auto

lemma new_events_same [simp]: "new_events s s = []"
  by (simp add: new_events_def)

lemma unreferenced_fold:
  "fold (\<lambda>img regimgs. if img \<in> W then regimgs - {img} else regimgs) ks S = S - (set ks \<inter> W)"
  by (induction ks arbitrary: S) auto

lemma unreferenced_eq: "range_ok env R \<Longrightarrow> unreferenced env R W = R - W"
  by (auto simp: unreferenced_def unreferenced_fold range_ok_def)

lemma deleteImage_trace:
  "\<exists>evs. trace (snd (deleteImage env img s)) = trace s @ evs
     \<and> deleted_images evs = [img] \<and> filter is_gc_event evs = []"
  by (simp add: deleteImage_def Let_def split: sum.splits prod.splits option.splits)

lemma delete_loop_trace:
  "delete_loop env imgs s = (res, s') \<Longrightarrow>
   \<exists>evs. trace s' = trace s @ evs
     \<and> prefix (deleted_images evs) imgs
     \<and> (res = None \<longrightarrow> deleted_images evs = imgs)

     \<and> filter is_gc_event evs = []"
proof (induction imgs arbitrary: s)
  case Nil
  then show ?case by auto
next
  case (Cons img imgs)
  obtain r1 s1 where d: "deleteImage env img s = (r1, s1)"
    by (cases "deleteImage env img s") auto
  from deleteImage_trace [of env img s] d obtain evs1 where
    e1: "trace s1 = trace s @ evs1" "deleted_images evs1 = [img]" "filter is_gc_event evs1 = []"
    by auto
  show ?case
  proof (cases r1)
    case None
    with Cons.prems d have "delete_loop env imgs s1 = (res, s')" by simp
    from Cons.IH [OF this] obtain evs2 where
      e2: "trace s' = trace s1 @ evs2" "prefix (deleted_images evs2) imgs"
          "res = None \<longrightarrow> deleted_images evs2 = imgs" "filter is_gc_event evs2 = []"
      by auto
    show ?thesis
      by (rule exI [of _ "evs1 @ evs2"]) (use e1 e2 in simp)
  next
    case (Some err)
    with Cons.prems d have "s' = s1" "res \<noteq> None" by auto
    then show ?thesis
      by (intro exI [of _ evs1]) (use e1 in auto)
  qed
qed


lemma FallbackStream_trace:
  "FallbackStream env p q f buf s = (r, buf', s') \<Longrightarrow>
   \<exists>evs. trace s' = trace s @ StreamCall p # evs
     \<and> deleted_images evs = [] \<and> tag_deletes evs = []"
  by (auto simp: FallbackStream_def StreamWithContext_def split: prod.splits option.splits if_splits)

lemma gcRegistry_trace:
  "\<exists>evs. trace (snd (gcRegistry env s)) = trace s @ GcRegistryCall # evs
     \<and> deleted_images evs = [] \<and> tag_deletes evs = []"
proof -
  obtain r buf s' where f: "FallbackStream env WebSocket SPDY
             (\<lambda>err. IsUpgradeFailure env err \<or> IsHTTPSProxyError env err) []
             (emit [GcRegistryCall] s) = (r, buf, s')"
    by (metis prod_cases3)
  from FallbackStream_trace [OF f] obtain evs where
    "trace s' = trace s @ GcRegistryCall # StreamCall WebSocket # evs"
    "deleted_images evs = []" "tag_deletes evs = []"
    by auto
  with f show ?thesis
    by (auto simp: gcRegistry_def Let_def split: option.splits)
qed

lemma reconcile_deleted_images:
  "prefix (deleted_images (new_events s (snd (reconcile env R W s))))
     (rangeOrder env (unreferenced env R W))"
proof -
  obtain r1 s1 where d: "delete_loop env (rangeOrder env (unreferenced env R W)) s = (r1, s1)"
    by (cases "delete_loop env (rangeOrder env (unreferenced env R W)) s") auto
  from delete_loop_trace [OF d] obtain evs1 where
    e1: "trace s1 = trace s @ evs1"
        "prefix (deleted_images evs1) (rangeOrder env (unreferenced env R W))"
        "r1 = None \<longrightarrow> deleted_images evs1 = rangeOrder env (unreferenced env R W)"
    by auto
  show ?thesis
  proof (cases r1)
    case (Some err)
    with d e1 show ?thesis by (simp add: reconcile_def)
  next
    case None
    from gcRegistry_trace [of env s1] obtain evs2 where
      "trace (snd (gcRegistry env s1)) = trace s1 @ GcRegistryCall # evs2"
      "deleted_images evs2 = []"
      by auto
    with None d e1 have
      "trace (snd (reconcile env R W s)) = trace s @ (evs1 @ GcRegistryCall # evs2)"
      by (auto simp: reconcile_def split: prod.splits option.splits)
    then have "new_events s (snd (reconcile env R W s)) = evs1 @ GcRegistryCall # evs2"
      by (rule new_events_append)
    with e1 None \<open>deleted_images evs2 = []\<close> show ?thesis by simp
  qed
qed

lemma delete_loop_error:
  "delete_loop env imgs s = (Some e, s') \<Longrightarrow>
   \<exists>img err. e = Wrapf ''could not delete image %q: %w'' [img] err \<and> img \<in> set imgs"
proof (induction imgs arbitrary: s)
  case Nil
  then show ?case by simp
next
  case (Cons img imgs)
  obtain r1 s1 where d: "deleteImage env img s = (r1, s1)"
    by (cases "deleteImage env img s") auto
  show ?case
  proof (cases r1)
    case None
    with Cons.prems d have "delete_loop env imgs s1 = (Some e, s')" by simp
    from Cons.IH [OF this] show ?thesis by auto
  next
    case (Some err)
    with Cons.prems d show ?thesis by auto
  qed
qed

lemma reconcile_deleted_all:
  assumes "\<forall>img err. fst (reconcile env R W s) \<noteq>
             Some (Wrapf ''could not delete image %q: %w'' [img] err)"
  shows "deleted_images (new_events s (snd (reconcile env R W s))) =
           rangeOrder env (unreferenced env R W)"
proof -
  obtain r1 s1 where d: "delete_loop env (rangeOrder env (unreferenced env R W)) s = (r1, s1)"
    by (cases "delete_loop env (rangeOrder env (unreferenced env R W)) s") auto
  from delete_loop_trace [OF d] obtain evs1 where
    e1: "trace s1 = trace s @ evs1"
        "r1 = None \<longrightarrow> deleted_images evs1 = rangeOrder env (unreferenced env R W)"
    by auto
  show ?thesis
  proof (cases r1)
    case (Some e)
    with d have "fst (reconcile env R W s) = Some e" by (simp add: reconcile_def)
    moreover from Some d obtain img err where
      "e = Wrapf ''could not delete image %q: %w'' [img] err"
      using delete_loop_error by blast
    ultimately show ?thesis using assms by simp
  next
    case None
    from gcRegistry_trace [of env s1] obtain evs2 where
      g: "trace (snd (gcRegistry env s1)) = trace s1 @ GcRegistryCall # evs2"
         "deleted_images evs2 = []"
      by auto
    with None d e1 have
      "trace (snd (reconcile env R W s)) = trace s @ (evs1 @ GcRegistryCall # evs2)"
      by (auto simp: reconcile_def split: prod.splits option.splits)
    then have "new_events s (snd (reconcile env R W s)) = evs1 @ GcRegistryCall # evs2"
      by (rule new_events_append)
    with e1 None g show ?thesis by simp
  qed
qed

lemma run_cases:
  "fetchRegistryImages env (world s) = Inr R \<Longrightarrow> fetchPodImages env (world s) = Inr W \<Longrightarrow>
   snd (run env s) = s \<or> run env s = reconcile env R W s"
  by (simp add: run_def split: option.splits)

lemma delete_loop_append:
  "delete_loop env (pre @ rest) s =
     (case delete_loop env pre s of
        (Some e, s1) \<Rightarrow> (Some e, s1)
      | (None, s1) \<Rightarrow> delete_loop env rest s1)"
  by (induction pre arbitrary: s) (auto split: prod.splits option.splits)

subsection \<open>The example clusters, evaluated\<close>

lemma shop_diff:
  "{''ctr.lesiw.dev/web:v1'', ''ctr.lesiw.dev/web:v2'', ''ctr.lesiw.dev/db:v1''}
     - {''ctr.lesiw.dev/web:v2'', ''docker.io/envoy:1'', ''ctr.lesiw.dev/db:v1''} =
   {''ctr.lesiw.dev/web:v1''}"
  by (simp add: insert_Diff_if)

lemma shop_range_ok:
  "range_ok shop_env {''ctr.lesiw.dev/web:v1'', ''ctr.lesiw.dev/web:v2'', ''ctr.lesiw.dev/db:v1''}"
  "range_ok shop_env {''ctr.lesiw.dev/web:v1''}"
  by (auto simp: range_ok_def shop_env_def sim_def listed_order_def)

lemma shop_fetch:
  "fetchRegistryImages shop_env shop_cluster =
     Inr {''ctr.lesiw.dev/web:v1'', ''ctr.lesiw.dev/web:v2'', ''ctr.lesiw.dev/db:v1''}"
  "fetchPodImages shop_env shop_cluster =
     Inr {''ctr.lesiw.dev/web:v2'', ''docker.io/envoy:1'', ''ctr.lesiw.dev/db:v1''}"
  by (simp_all add: fetchRegistryImages_def fetchPodImages_def shop_env_def sim_def
        shop_cluster_def image_name_def insert_commute)

lemma demo_parse:
  "parseImage ''ctr.lesiw.dev/a:v1'' = (Inr (''a'', ''v1'') :: sim_error error + string \<times> string)"
  "parseImage ''ctr.lesiw.dev/b:v2'' = (Inr (''b'', ''v2'') :: sim_error error + string \<times> string)"
  "parseImage ''ctr.lesiw.dev/c:v3'' = (Inr (''c'', ''v3'') :: sim_error error + string \<times> string)"
  using parseImage_ok [of "''ctr.lesiw.dev''" "''a''" "''v1''"]
        parseImage_ok [of "''ctr.lesiw.dev''" "''b''" "''v2''"]
        parseImage_ok [of "''ctr.lesiw.dev''" "''c''" "''v3''"]
  by simp_all

lemma demo_order:
  "rangeOrder demo_env
     (unreferenced demo_env
        {''ctr.lesiw.dev/a:v1'', ''ctr.lesiw.dev/b:v2'', ''ctr.lesiw.dev/c:v3''} {}) =
   [''ctr.lesiw.dev/a:v1''] @ ''ctr.lesiw.dev/b:v2'' # [''ctr.lesiw.dev/c:v3'']"
  by (simp add: demo_env_def sim_def unreferenced_def listed_order_def)

lemma demo_first:
  "delete_loop demo_env [''ctr.lesiw.dev/a:v1''] \<lparr>world = demo_cluster, trace = []\<rparr> =
     (None,
      \<lparr>world = demo_cluster\<lparr>stored := [(''b'', ''v2''), (''c'', ''v3'')]\<rparr>,
       trace = [DeleteImageCall ''ctr.lesiw.dev/a:v1'',
                TagDeleteCall \<lparr>Scheme = ''reg'', Registry = ''registry:5000'',
                                Repository = ''a'', Tag = ''v1''\<rparr>,
                LogInfo ''deleted image'' [''image'', ''ctr.lesiw.dev/a:v1'']]\<rparr>)"
  by (simp add: deleteImage_parsed [OF demo_parse(1)] demo_env_def sim_def sim_TagDelete_def
        demo_cluster_def)

lemma demo_second:
  "deleteImage demo_env ''ctr.lesiw.dev/b:v2''
      \<lparr>world = demo_cluster\<lparr>stored := [(''b'', ''v2''), (''c'', ''v3'')]\<rparr>,
       trace = [DeleteImageCall ''ctr.lesiw.dev/a:v1'',
                TagDeleteCall \<lparr>Scheme = ''reg'', Registry = ''registry:5000'',
                                Repository = ''a'', Tag = ''v1''\<rparr>,
                LogInfo ''deleted image'' [''image'', ''ctr.lesiw.dev/a:v1'']]\<rparr> =
     (Some (Wrapf ''could not delete %q: %w'' [''ctr.lesiw.dev/b:v2''] (Ext DeleteRefused)),
      \<lparr>world = demo_cluster\<lparr>stored := [(''b'', ''v2''), (''c'', ''v3'')]\<rparr>,
       trace = [DeleteImageCall ''ctr.lesiw.dev/a:v1'',
                TagDeleteCall \<lparr>Scheme = ''reg'', Registry = ''registry:5000'',
                                Repository = ''a'', Tag = ''v1''\<rparr>,
                LogInfo ''deleted image'' [''image'', ''ctr.lesiw.dev/a:v1''],
                DeleteImageCall ''ctr.lesiw.dev/b:v2'',
                TagDeleteCall \<lparr>Scheme = ''reg'', Registry = ''registry:5000'',
                                Repository = ''b'', Tag = ''v2''\<rparr>]\<rparr>)"
  by (simp add: deleteImage_parsed [OF demo_parse(2)] demo_env_def sim_def sim_TagDelete_def
        demo_cluster_def)

subsection \<open>C1: the unreferenced set is exactly the difference\<close>

text \<open>
  Claim C1. For every registry inventory \<open>R\<close> and workload inventory \<open>W\<close>, the set the
  reconciler computes, which is the set of images it then passes to deletion, is
  exactly the members of \<open>R\<close> that are not in \<open>W\<close> under equality of the strings: no
  member of \<open>W\<close> is in it and no member of \<open>R - W\<close> is left out. The images passed to
  \<^verbatim>\<open>deleteImage\<close> are always among \<open>R - W\<close>, and they are all of \<open>R - W\<close> unless the
  cycle stopped at a failed deletion.
\<close>
theorem unreferenced_set_exact:
  assumes "range_ok env R" and "range_ok env (R - W)"
  shows "unreferenced env R W = R - W
       \<and> set (deleted_images (new_events s (snd (reconcile env R W s)))) \<subseteq> R - W
       \<and> ((\<forall>img err. fst (reconcile env R W s) \<noteq>
              Some (Wrapf ''could not delete image %q: %w'' [img] err)) \<longrightarrow>
            set (deleted_images (new_events s (snd (reconcile env R W s)))) = R - W)"
proof -
  have u: "unreferenced env R W = R - W"
    using assms(1) by (rule unreferenced_eq)
  have o: "set (rangeOrder env (R - W)) = R - W"
    using assms(2) by (simp add: range_ok_def)
  have "set (deleted_images (new_events s (snd (reconcile env R W s))))
          \<subseteq> set (rangeOrder env (unreferenced env R W))"
    using reconcile_deleted_images [of s env R W] by (rule set_mono_prefix)
  then have sub: "set (deleted_images (new_events s (snd (reconcile env R W s)))) \<subseteq> R - W"
    by (simp add: u o)
  have all: "set (deleted_images (new_events s (snd (reconcile env R W s)))) = R - W"
    if "\<forall>img err. fst (reconcile env R W s) \<noteq>
              Some (Wrapf ''could not delete image %q: %w'' [img] err)"
    using reconcile_deleted_all [OF that] by (simp add: u o)
  from u sub all show ?thesis by blast
qed

theorem unreferenced_set_exact_witness:
  "range_ok shop_env {''ctr.lesiw.dev/web:v1'', ''ctr.lesiw.dev/web:v2'', ''ctr.lesiw.dev/db:v1''}
   \<and> range_ok shop_env
        ({''ctr.lesiw.dev/web:v1'', ''ctr.lesiw.dev/web:v2'', ''ctr.lesiw.dev/db:v1''}
           - {''ctr.lesiw.dev/web:v2'', ''docker.io/envoy:1'', ''ctr.lesiw.dev/db:v1''})
   \<and> unreferenced shop_env
        {''ctr.lesiw.dev/web:v1'', ''ctr.lesiw.dev/web:v2'', ''ctr.lesiw.dev/db:v1''}
        {''ctr.lesiw.dev/web:v2'', ''docker.io/envoy:1'', ''ctr.lesiw.dev/db:v1''} =
       {''ctr.lesiw.dev/web:v1''}
   \<and> set (deleted_images (new_events \<lparr>world = shop_cluster, trace = []\<rparr>
        (snd (reconcile shop_env
           {''ctr.lesiw.dev/web:v1'', ''ctr.lesiw.dev/web:v2'', ''ctr.lesiw.dev/db:v1''}
           {''ctr.lesiw.dev/web:v2'', ''docker.io/envoy:1'', ''ctr.lesiw.dev/db:v1''}
           \<lparr>world = shop_cluster, trace = []\<rparr>))))
       \<subseteq> {''ctr.lesiw.dev/web:v1''}"
proof -
  have a: "range_ok shop_env
        ({''ctr.lesiw.dev/web:v1'', ''ctr.lesiw.dev/web:v2'', ''ctr.lesiw.dev/db:v1''}
           - {''ctr.lesiw.dev/web:v2'', ''docker.io/envoy:1'', ''ctr.lesiw.dev/db:v1''})"
    unfolding shop_diff by (rule shop_range_ok(2))
  show ?thesis
    using shop_range_ok(1) a
      unreferenced_set_exact [OF shop_range_ok(1) a, of "\<lparr>world = shop_cluster, trace = []\<rparr>"]
    unfolding shop_diff by simp
qed

subsection \<open>C2: an image a workload uses is never passed to deletion\<close>

text \<open>
  Claim C2. For every registry inventory \<open>R\<close> and workload inventory \<open>W\<close>, no image
  that is a member of \<open>W\<close> is passed to \<^verbatim>\<open>deleteImage\<close> during a cycle: neither by the
  reconciling part of \<^verbatim>\<open>run\<close> on \<open>R\<close> and \<open>W\<close>, nor by a whole \<^verbatim>\<open>run\<close> whose fetches
  return \<open>R\<close> and \<open>W\<close>.
\<close>
theorem referenced_images_never_deleted:
  assumes "range_ok env R" and "range_ok env (R - W)"
  shows "(\<forall>img \<in> set (deleted_images (new_events s (snd (reconcile env R W s)))). img \<notin> W)
       \<and> (fetchRegistryImages env (world s) = Inr R \<and> fetchPodImages env (world s) = Inr W \<longrightarrow>
            (\<forall>img \<in> set (deleted_images (new_events s (snd (run env s)))). img \<notin> W))"
proof -
  have u: "unreferenced env R W = R - W"
    using assms(1) by (rule unreferenced_eq)
  have o: "set (rangeOrder env (R - W)) = R - W"
    using assms(2) by (simp add: range_ok_def)
  have "set (deleted_images (new_events s (snd (reconcile env R W s))))
          \<subseteq> set (rangeOrder env (unreferenced env R W))"
    using reconcile_deleted_images [of s env R W] by (rule set_mono_prefix)
  then have sub: "set (deleted_images (new_events s (snd (reconcile env R W s)))) \<subseteq> R - W"
    by (simp add: u o)
  then have 1: "\<forall>img \<in> set (deleted_images (new_events s (snd (reconcile env R W s)))). img \<notin> W"
    by blast
  have 2: "\<forall>img \<in> set (deleted_images (new_events s (snd (run env s)))). img \<notin> W"
    if f: "fetchRegistryImages env (world s) = Inr R \<and> fetchPodImages env (world s) = Inr W"
  proof -
    from f have "snd (run env s) = s \<or> run env s = reconcile env R W s"
      using run_cases [of env s R W] by simp
    then show ?thesis
    proof
      assume "snd (run env s) = s"
      then show ?thesis by simp
    next
      assume "run env s = reconcile env R W s"
      with 1 show ?thesis by simp
    qed
  qed
  from 1 2 show ?thesis by blast
qed

theorem referenced_images_never_deleted_witness:
  "range_ok shop_env {''ctr.lesiw.dev/web:v1'', ''ctr.lesiw.dev/web:v2'', ''ctr.lesiw.dev/db:v1''}
   \<and> range_ok shop_env
        ({''ctr.lesiw.dev/web:v1'', ''ctr.lesiw.dev/web:v2'', ''ctr.lesiw.dev/db:v1''}
           - {''ctr.lesiw.dev/web:v2'', ''docker.io/envoy:1'', ''ctr.lesiw.dev/db:v1''})
   \<and> fetchRegistryImages shop_env shop_cluster =
       Inr {''ctr.lesiw.dev/web:v1'', ''ctr.lesiw.dev/web:v2'', ''ctr.lesiw.dev/db:v1''}
   \<and> fetchPodImages shop_env shop_cluster =
       Inr {''ctr.lesiw.dev/web:v2'', ''docker.io/envoy:1'', ''ctr.lesiw.dev/db:v1''}
   \<and> set (deleted_images (new_events \<lparr>world = shop_cluster, trace = []\<rparr>
                  (snd (run shop_env \<lparr>world = shop_cluster, trace = []\<rparr>))))
       \<inter> {''ctr.lesiw.dev/web:v2'', ''docker.io/envoy:1'', ''ctr.lesiw.dev/db:v1''} = {}"
proof -
  have a: "range_ok shop_env
        ({''ctr.lesiw.dev/web:v1'', ''ctr.lesiw.dev/web:v2'', ''ctr.lesiw.dev/db:v1''}
           - {''ctr.lesiw.dev/web:v2'', ''docker.io/envoy:1'', ''ctr.lesiw.dev/db:v1''})"
    unfolding shop_diff by (rule shop_range_ok(2))
  show ?thesis
    using shop_range_ok(1) a shop_fetch
      referenced_images_never_deleted
        [OF shop_range_ok(1) a, of "\<lparr>world = shop_cluster, trace = []\<rparr>"]
    by (simp add: disjoint_iff)
qed

subsection \<open>C3: a failed deletion ends the cycle where it stands\<close>

text \<open>
  Claim C3. When the deletion of one member of the unreferenced set fails, the cycle
  stops at once with the error: with the loop order \<open>pre\<close>, \<open>img\<close>, \<open>post\<close>, the
  deletions of \<open>pre\<close> having succeeded and that of \<open>img\<close> failing, the result is the
  wrapped error and the state is the very state the failed call left. So the images
  passed to deletion are \<open>pre\<close> and \<open>img\<close> and none of \<open>post\<close>, what was deleted before
  stays deleted (nothing is undone), and the garbage collection is not triggered. In
  particular, with three unreferenced images of which the second fails to delete,
  the first is gone, the second and third are still stored and no GC event occurs.
\<close>
theorem deletion_failure_aborts_cycle:
  assumes "rangeOrder env (unreferenced env R W) = pre @ img # post"
      and "delete_loop env pre s = (None, s1)"
      and "deleteImage env img s1 = (Some err, s2)"
  shows "reconcile env R W s =
           (Some (Wrapf ''could not delete image %q: %w'' [img] err), s2)
       \<and> deleted_images (new_events s s2) = pre @ [img]
       \<and> filter is_gc_event (new_events s s2) = []"
proof -
  have l: "delete_loop env (pre @ img # post) s =
             (Some (Wrapf ''could not delete image %q: %w'' [img] err), s2)"
    using assms(2,3) by (simp add: delete_loop_append)
  then have r: "reconcile env R W s =
           (Some (Wrapf ''could not delete image %q: %w'' [img] err), s2)"
    using assms(1) by (simp add: reconcile_def)
  from delete_loop_trace [OF assms(2)] obtain evs1 where
    e1: "trace s1 = trace s @ evs1" "deleted_images evs1 = pre" "filter is_gc_event evs1 = []"
    by auto
  from deleteImage_trace [of env img s1] assms(3) obtain evs2 where
    e2: "trace s2 = trace s1 @ evs2" "deleted_images evs2 = [img]" "filter is_gc_event evs2 = []"
    by auto
  from e1 e2 have "trace s2 = trace s @ (evs1 @ evs2)" by simp
  then have "new_events s s2 = evs1 @ evs2" by (rule new_events_append)
  with e1 e2 r show ?thesis by simp
qed

theorem deletion_failure_aborts_cycle_witness:
  "reconcile demo_env
      {''ctr.lesiw.dev/a:v1'', ''ctr.lesiw.dev/b:v2'', ''ctr.lesiw.dev/c:v3''} {}
      \<lparr>world = demo_cluster, trace = []\<rparr> =
     (Some (Wrapf ''could not delete image %q: %w'' [''ctr.lesiw.dev/b:v2'']
              (Wrapf ''could not delete %q: %w'' [''ctr.lesiw.dev/b:v2''] (Ext DeleteRefused))),
      \<lparr>world = demo_cluster\<lparr>stored := [(''b'', ''v2''), (''c'', ''v3'')]\<rparr>,
       trace = [DeleteImageCall ''ctr.lesiw.dev/a:v1'',
                TagDeleteCall \<lparr>Scheme = ''reg'', Registry = ''registry:5000'',
                                Repository = ''a'', Tag = ''v1''\<rparr>,
                LogInfo ''deleted image'' [''image'', ''ctr.lesiw.dev/a:v1''],
                DeleteImageCall ''ctr.lesiw.dev/b:v2'',
                TagDeleteCall \<lparr>Scheme = ''reg'', Registry = ''registry:5000'',
                                Repository = ''b'', Tag = ''v2''\<rparr>]\<rparr>)
   \<and> stored demo_cluster = [(''a'', ''v1''), (''b'', ''v2''), (''c'', ''v3'')]"
  using deletion_failure_aborts_cycle [OF demo_order demo_first demo_second]
  by (simp add: demo_cluster_def)

subsection \<open>C4: WebSocket first, SPDY only after an upgrade or proxy failure\<close>

text \<open>
  Claim C4. \<^verbatim>\<open>gcRegistry\<close> attempts the WebSocket executor first. It falls back to the
  SPDY executor if and only if the WebSocket attempt failed with an error that
  \<^verbatim>\<open>IsUpgradeFailure\<close> or \<^verbatim>\<open>IsHTTPSProxyError\<close> accepts; then the outcome is that of
  the SPDY attempt. A failure of any other class is returned at once, wrapped, with
  no SPDY attempt, and a success needs no second attempt either.
\<close>
theorem gcRegistry_fallback:
  assumes "NewSPDYExecutor env gc_request (world s) = None"
      and "NewWebSocketExecutor env gc_request (world s) = None"
      and "Stream env WebSocket gc_request (world s) = ((r, out), w1)"
  shows "stream_calls (new_events s (snd (gcRegistry env s))) =
           (if \<exists>e. r = Some e \<and> (IsUpgradeFailure env e \<or> IsHTTPSProxyError env e)
            then [WebSocket, SPDY] else [WebSocket])
       \<and> (r = None \<longrightarrow>
            gcRegistry env s =
              (None, \<lparr>world = w1,
                      trace = trace s @ [GcRegistryCall, StreamCall WebSocket,
                                         LogInfo ''gc completed'' []]\<rparr>))
       \<and> (\<forall>e. r = Some e \<and> \<not> IsUpgradeFailure env e \<and> \<not> IsHTTPSProxyError env e \<longrightarrow>
            gcRegistry env s =
              (Some (if length out > 0
                     then Wrapf ''could not exec registry garbage-collect: %w\<newline>---\<newline>%s''
                            [out] (Ext e)
                     else Wrapf ''could not exec registry garbage-collect: %w'' [] (Ext e)),
               \<lparr>world = w1, trace = trace s @ [GcRegistryCall, StreamCall WebSocket]\<rparr>))
       \<and> (\<forall>e. r = Some e \<and> (IsUpgradeFailure env e \<or> IsHTTPSProxyError env e) \<longrightarrow>
            world (snd (gcRegistry env s)) = snd (Stream env SPDY gc_request w1)
            \<and> (fst (gcRegistry env s) = None \<longleftrightarrow>
                 fst (fst (Stream env SPDY gc_request w1)) = None))"
proof (cases r)
  case None
  with assms show ?thesis
    by (simp add: gcRegistry_def FallbackStream_def StreamWithContext_def Let_def emit_def
          new_events_def)
next
  case (Some e)
  obtain r2 out2 w2 where s2: "Stream env SPDY gc_request w1 = ((r2, out2), w2)"
    by (metis surj_pair)
  show ?thesis
  proof (cases "IsUpgradeFailure env e \<or> IsHTTPSProxyError env e")
    case True
    with Some assms s2 show ?thesis
      by (cases r2)
         (auto simp: gcRegistry_def FallbackStream_def StreamWithContext_def Let_def emit_def
            new_events_def)
  next
    case False
    with Some assms show ?thesis
      by (simp add: gcRegistry_def FallbackStream_def StreamWithContext_def Let_def emit_def
            new_events_def)
  qed
qed

theorem gcRegistry_fallback_witness:
  "stream_calls (new_events \<lparr>world = demo_cluster\<lparr>ws_result := (Some UpgradeFailure, [])\<rparr>, trace = []\<rparr>
     (snd (gcRegistry demo_env
             \<lparr>world = demo_cluster\<lparr>ws_result := (Some UpgradeFailure, [])\<rparr>, trace = []\<rparr>))) =
     [WebSocket, SPDY]
   \<and> fst (gcRegistry demo_env
             \<lparr>world = demo_cluster\<lparr>ws_result := (Some UpgradeFailure, [])\<rparr>, trace = []\<rparr>) = None
   \<and> stream_calls (new_events \<lparr>world = demo_cluster\<lparr>ws_result := (Some HTTPSProxy, [])\<rparr>, trace = []\<rparr>
     (snd (gcRegistry demo_env
             \<lparr>world = demo_cluster\<lparr>ws_result := (Some HTTPSProxy, [])\<rparr>, trace = []\<rparr>))) =
     [WebSocket, SPDY]
   \<and> gcRegistry demo_env
         \<lparr>world = demo_cluster\<lparr>ws_result := (Some CommandFailed, ''boom'')\<rparr>, trace = []\<rparr> =
       (Some (Wrapf ''could not exec registry garbage-collect: %w\<newline>---\<newline>%s''
                [''boom''] (Ext CommandFailed)),
        \<lparr>world = demo_cluster\<lparr>ws_result := (Some CommandFailed, ''boom'')\<rparr>,
         trace = [GcRegistryCall, StreamCall WebSocket]\<rparr>)
   \<and> gcRegistry demo_env \<lparr>world = demo_cluster, trace = []\<rparr> =
       (None, \<lparr>world = demo_cluster,
               trace = [GcRegistryCall, StreamCall WebSocket, LogInfo ''gc completed'' []]\<rparr>)"
proof -
  let ?u = "demo_cluster\<lparr>ws_result := (Some UpgradeFailure, [])\<rparr>"
  let ?p = "demo_cluster\<lparr>ws_result := (Some HTTPSProxy, [])\<rparr>"
  let ?c = "demo_cluster\<lparr>ws_result := (Some CommandFailed, ''boom'')\<rparr>"
  have n: "NewSPDYExecutor demo_env gc_request w = None"
          "NewWebSocketExecutor demo_env gc_request w = None" for w
    by (simp_all add: demo_env_def sim_def)
  have su: "Stream demo_env WebSocket gc_request (world \<lparr>world = ?u, trace = []\<rparr>) =
              ((Some UpgradeFailure, []), ?u)"
    by (simp add: demo_env_def sim_def)
  have sp: "Stream demo_env WebSocket gc_request (world \<lparr>world = ?p, trace = []\<rparr>) =
              ((Some HTTPSProxy, []), ?p)"
    by (simp add: demo_env_def sim_def)
  have sc: "Stream demo_env WebSocket gc_request (world \<lparr>world = ?c, trace = []\<rparr>) =
              ((Some CommandFailed, ''boom''), ?c)"
    by (simp add: demo_env_def sim_def)
  have sd: "Stream demo_env WebSocket gc_request (world \<lparr>world = demo_cluster, trace = []\<rparr>) =
              ((None, []), demo_cluster)"
    by (simp add: demo_env_def sim_def demo_cluster_def)
  have spdy: "Stream demo_env SPDY gc_request ?u = ((None, []), ?u)"
    by (simp add: demo_env_def sim_def demo_cluster_def)
  have cls: "IsUpgradeFailure demo_env UpgradeFailure" "IsHTTPSProxyError demo_env HTTPSProxy"
    "\<not> IsUpgradeFailure demo_env CommandFailed" "\<not> IsHTTPSProxyError demo_env CommandFailed"
    by (simp_all add: demo_env_def sim_def)
  show ?thesis
    using gcRegistry_fallback [OF n(1) n(2) su] gcRegistry_fallback [OF n(1) n(2) sp]
      gcRegistry_fallback [OF n(1) n(2) sc] gcRegistry_fallback [OF n(1) n(2) sd]
      cls spdy
    by simp
qed

subsection \<open>Running against the modelled registry\<close>
















text \<open>
  A repository name with a \<open>:\<close> in it does not come back from the parse: the string
  composed for repository \<open>a:b\<close> and tag \<open>c\<close> is parsed as repository \<open>a\<close> and tag
  \<open>b:c\<close>. Names without \<open>:\<close> do come back (\<open>parseImage_image_name_roundtrip\<close>).
\<close>

lemma roundtrip_needs_no_colon:
  "parseImage (image_name ''a:b'' ''c'') = (Inr (''a'', ''b:c'') :: sim_error error + string \<times> string)"
  using parseImage_ok [of "''ctr.lesiw.dev''" "''a''" "''b:c''"] by (simp add: image_name_def)


subsection \<open>C8: a second run right after a successful one deletes nothing\<close>



end
